theory Spec2Isabelle
  imports Main
begin

section \<open>Values, errors and the serial transport\<close>

text \<open>
  The client passes arguments as Go \<open>interface{}\<close> values. The code distinguishes the nil
  interface, \<open>string\<close>, \<open>int\<close>, \<open>bool\<close> and \<open>[]interface{}\<close>; the facades also pass
  \<open>byte\<close> values, and any other dynamic type is kept by its type name, which is all
  that \<open>write\<close> reads of it (through the verb \<open>%T\<close>). Go's \<open>int\<close> is modelled
  by \<open>int\<close>: the only arithmetic of the code is \<open>nel++\<close> and \<open>nel-1\<close> on a counter
  bounded by the number of arguments in memory, so no operation wraps around.
\<close>

datatype val =
    VNil
  | VStr string
  | VInt int
  | VBool bool
  | VByte char
  | VList "val list"
  | VOther string

text \<open>What \<open>fmt\<close> prints for \<open>%T\<close>.\<close>

fun type_name :: "val \<Rightarrow> string" where
  "type_name VNil = ''<nil>''"
| "type_name (VStr v) = ''string''"
| "type_name (VInt v) = ''int''"
| "type_name (VBool v) = ''bool''"
| "type_name (VByte v) = ''uint8''"
| "type_name (VList v) = ''[]interface {}''"
| "type_name (VOther t) = t"

text \<open>
  Errors by their dynamic type: \<open>errors.New\<close> values carry their message,
  \<open>SerialTimeoutError\<close> is a string type whose \<open>Error()\<close> is the string itself,
  \<open>i2cCommunicationError\<close> is an int type, \<open>NumError\<close> is what \<open>strconv\<close> returns
  (function, input, kind), and \<open>Device\<close> is an error of the serial driver or of the
  buffered reader and writer, kept by its message.
\<close>

datatype numerr = ErrSyntax | ErrRange

datatype err =
    ErrorString string
  | SerialTimeoutError string
  | i2cCommunicationError int
  | NumError string string numerr
  | Device string

text \<open>
  The serial port and the \<open>bufio.ReadWriter\<close> around it are outside the repository's
  sources. The connection's dealings with them are recorded as events, in order, and
  what they answer is a parameter: each answer may depend on everything that happened
  before. \<open>Scan_res\<close> is the outcome of the race in \<open>ReadLine\<close> between the scanning
  goroutine and the timer: either the scan finished first, with \<open>scanner.Err()\<close> and
  \<open>scanner.Bytes()\<close>, or the timer fired first.
\<close>

datatype event =
    OpenPort
  | RWWrite string
  | RWFlush
  | PortFlush
  | PortClose
  | Scan

datatype scan_race = ScanDone "string option" string | TimerFired

record transport =
  OpenPort_res :: "event list \<Rightarrow> string option"
  Write_res :: "event list \<Rightarrow> string \<Rightarrow> string option"
  Flush_res :: "event list \<Rightarrow> string option"
  PortFlush_res :: "event list \<Rightarrow> string option"
  PortClose_res :: "event list \<Rightarrow> string option"
  Scan_res :: "event list \<Rightarrow> scan_race"

text \<open>
  \<open>port_open\<close> is \<open>s.port != nil\<close>, the only test of the open state the code makes.
  \<open>Name\<close> is \<open>SerialConfig.Name\<close>; durations are in nanoseconds.
\<close>

record FirmwareConnection =
  Name :: string
  SleepAfterConnect :: nat
  ReadTimeout :: nat
  port_open :: bool
  trace :: "event list"

definition emit :: "event \<Rightarrow> FirmwareConnection \<Rightarrow> FirmwareConnection" where
  "emit e s = s\<lparr>trace := trace s @ [e]\<rparr>"

definition NUL :: char where
  "NUL = CHR 0x00"

section \<open>Connection lifecycle and bounded input and output\<close>

definition NewFirmwareConnection :: "string \<Rightarrow> FirmwareConnection" where
  "NewFirmwareConnection serialConf =
     \<lparr>Name = serialConf, SleepAfterConnect = 0, ReadTimeout = 2 * 1000000000,
      port_open = False, trace = []\<rparr>"

definition portClosed :: err where
  "portClosed = ErrorString ''port is not opened: must call Open() first''"

text \<open>
  \<open>serial.OpenPort\<close> is taken to return a nil port together with its error. After a
  successful open the reader and writer are created, the settle delay passes and the
  port is flushed; the result of that flush is the result of \<open>Open\<close>.
\<close>

definition Open :: "transport \<Rightarrow> FirmwareConnection \<Rightarrow> err option \<times> FirmwareConnection" where
  "Open T s =
     (case OpenPort_res T (trace s) of
        Some e \<Rightarrow> (Some (Device e), emit OpenPort (s\<lparr>port_open := False\<rparr>))
      | None \<Rightarrow>
          (let s1 = emit OpenPort (s\<lparr>port_open := True\<rparr>)
           in (map_option Device (PortFlush_res T (trace s1)), emit PortFlush s1)))"

definition Write :: "transport \<Rightarrow> string \<Rightarrow> FirmwareConnection \<Rightarrow> err option \<times> FirmwareConnection" where
  "Write T b s =
     (if \<not> port_open s then (Some portClosed, s)
      else (map_option Device (Write_res T (trace s) b), emit (RWWrite b) s))"

definition Flush :: "transport \<Rightarrow> FirmwareConnection \<Rightarrow> err option \<times> FirmwareConnection" where
  "Flush T s =
     (if \<not> port_open s then (Some portClosed, s)
      else (map_option Device (Flush_res T (trace s)), emit RWFlush s))"

text \<open>
  \<open>ReadLine\<close>: the error of a failed scan is wrapped in a new message; a timeout is a
  \<open>SerialTimeoutError\<close>; on either the port is flushed once (a failure of that flush is
  only logged) and the bytes returned are the empty slice made before the race.
\<close>

definition ReadLine :: "transport \<Rightarrow> FirmwareConnection \<Rightarrow> (string \<times> err option) \<times> FirmwareConnection" where
  "ReadLine T s =
     (if \<not> port_open s then (([], Some portClosed), s)
      else
        (let s1 = emit Scan s;
             err = (case Scan_res T (trace s) of
                      ScanDone None b \<Rightarrow> None
                    | ScanDone (Some m) b \<Rightarrow>
                        Some (ErrorString (''error scanning bytes from port '' @ Name s
                                           @ [CHR 0x0A] @ '': '' @ m))
                    | TimerFired \<Rightarrow> Some (SerialTimeoutError (Name s @ '' ReadLine timeout'')))
         in if err \<noteq> None then (([], err), emit PortFlush s1)
            else ((case Scan_res T (trace s) of ScanDone e b \<Rightarrow> b | TimerFired \<Rightarrow> [], None), s1)))"

definition FlushPort :: "transport \<Rightarrow> FirmwareConnection \<Rightarrow> err option \<times> FirmwareConnection" where
  "FlushPort T s =
     (if \<not> port_open s then (Some portClosed, s)
      else (map_option Device (PortFlush_res T (trace s)), emit PortFlush s))"

text \<open>\<open>Close\<close> closes the port and leaves the field \<open>s.port\<close> as it is.\<close>

definition Close :: "transport \<Rightarrow> FirmwareConnection \<Rightarrow> err option \<times> FirmwareConnection" where
  "Close T s =
     (if \<not> port_open s then (None, s)
      else (map_option Device (PortClose_res T (trace s)), emit PortClose s))"

section \<open>The scalar encoder\<close>

text \<open>\<open>strconv.Itoa\<close>: decimal digits, most significant first, with a minus sign.\<close>

definition digit_char :: "nat \<Rightarrow> char" where
  "digit_char d = ''0123456789'' ! d"

fun digits :: "nat \<Rightarrow> string" where
  "digits n = (if n < 10 then [digit_char n] else digits (n div 10) @ [digit_char (n mod 10)])"

declare digits.simps [simp del]

definition Itoa :: "int \<Rightarrow> string" where
  "Itoa i = (if i < 0 then CHR ''-'' # digits (nat (- i)) else digits (nat i))"

text \<open>
  \<open>write\<close> is a type switch that computes the text \<open>s\<close> or returns at once, followed by
  one \<open>conn.Write\<close> of \<open>s\<close> and a NUL byte. The switch is \<open>write_switch\<close>, the whole
  function \<open>write_val\<close>.
\<close>

fun write_switch :: "val \<Rightarrow> err + string" where
  "write_switch (VStr v) = Inr v"
| "write_switch (VInt v) = Inr (Itoa v)"
| "write_switch (VBool v) = Inr (if v then ''True'' else ''False'')"
| "write_switch v = Inl (ErrorString (''Firmware Write: Unsupported type '' @ type_name v))"

definition write_val :: "transport \<Rightarrow> val \<Rightarrow> FirmwareConnection \<Rightarrow> err option \<times> FirmwareConnection" where
  "write_val T data conn =
     (case write_switch data of
        Inl e \<Rightarrow> (Some e, conn)
      | Inr s \<Rightarrow> Write T (s @ [NUL]) conn)"

definition returnValue :: "transport \<Rightarrow> FirmwareConnection \<Rightarrow> (string \<times> err option) \<times> FirmwareConnection" where
  "returnValue T conn =
     (case ReadLine T conn of
        ((b, Some e), c) \<Rightarrow> (([], Some e), c)
      | ((b, None), c) \<Rightarrow> ((b, None), c))"

section \<open>The call dispatcher\<close>

text \<open>
  The loop over \<open>args\<close> with its two accumulators \<open>toprint\<close> and \<open>nel\<close>: a list-valued
  argument has its non-nil elements appended, any other non-nil argument is appended
  itself.
\<close>

fun flatten_list :: "val list \<Rightarrow> val list \<times> int \<Rightarrow> val list \<times> int" where
  "flatten_list [] acc = acc"
| "flatten_list (el # ls) (toprint, nel) =
     flatten_list ls (if el \<noteq> VNil then (toprint @ [el], nel + 1) else (toprint, nel))"

fun flatten_args :: "val list \<Rightarrow> val list \<times> int \<Rightarrow> val list \<times> int" where
  "flatten_args [] acc = acc"
| "flatten_args (arg # args) (toprint, nel) =
     flatten_args args
       (case arg of
          VList ls \<Rightarrow> flatten_list ls (toprint, nel)
        | _ \<Rightarrow> (if arg \<noteq> VNil then (toprint @ [arg], nel + 1) else (toprint, nel)))"

definition flatten :: "val list \<Rightarrow> val list" where
  "flatten args = fst (flatten_args args ([], 0))"

fun write_each :: "transport \<Rightarrow> val list \<Rightarrow> FirmwareConnection \<Rightarrow> err option \<times> FirmwareConnection" where
  "write_each T [] conn = (None, conn)"
| "write_each T (elprint # rest) conn =
     (case write_val T elprint conn of
        (Some e, c) \<Rightarrow> (Some e, c)
      | (None, c) \<Rightarrow> write_each T rest c)"

text \<open>
  One call, run alone: the process-wide mutex is taken on entry and released on every
  return, which changes nothing for a single caller.
\<close>

definition call :: "transport \<Rightarrow> string \<Rightarrow> int \<Rightarrow> val list \<Rightarrow> FirmwareConnection
    \<Rightarrow> (string \<times> err option) \<times> FirmwareConnection" where
  "call T namespace ident args conn =
     (case write_val T (VStr namespace) conn of
        (Some e, c1) \<Rightarrow> (([], Some e), c1)
      | (None, c1) \<Rightarrow>
     (case write_val T (VInt ident) c1 of
        (Some e, c2) \<Rightarrow> (([], Some e), c2)
      | (None, c2) \<Rightarrow>
     (case flatten_args args ([], 0) of (toprint, nel) \<Rightarrow>
     (case write_val T (VInt (nel - 1)) c2 of
        (Some e, c3) \<Rightarrow> (([], Some e), c3)
      | (None, c3) \<Rightarrow>
     (case write_each T toprint c3 of
        (Some e, c4) \<Rightarrow> (([], Some e), c4)
      | (None, c4) \<Rightarrow>
     (case Flush T c4 of
        (Some e, c5) \<Rightarrow> (([], Some e), c5)
      | (None, c5) \<Rightarrow> returnValue T c5))))))"

section \<open>The facade over the dispatcher\<close>

text \<open>
  \<open>prependName\<close> grows the slice by one placeholder, shifts every element one place
  to the right and stores the name in front.
\<close>

definition prependName :: "val list \<Rightarrow> string \<Rightarrow> val list" where
  "prependName args name =
     (let grown = args @ [VInt 0];
          shifted = take 1 grown @ take (length grown - 1) grown
      in shifted[0 := VStr name])"

text \<open>
  A \<open>FirmwareClass\<close> holds a pointer to the connection, which is passed and returned
  here, the numeric id and the namespace.
\<close>

record FirmwareClass =
  Id_fc :: int
  Namespace :: string

definition ArduinoMethodCall :: "transport \<Rightarrow> FirmwareClass \<Rightarrow> string \<Rightarrow> val list
    \<Rightarrow> FirmwareConnection \<Rightarrow> (string \<times> err option) \<times> FirmwareConnection" where
  "ArduinoMethodCall T f methodName args conn =
     call T (Namespace f) (Id_fc f) (prependName args methodName) conn"

text \<open>
  The typed helpers are variadic and hand their own argument slice to the variadic
  \<open>ArduinoMethodCall\<close> as one value, so it arrives there as a single list-valued
  argument.
\<close>

definition FirmwareClass_call :: "transport \<Rightarrow> FirmwareClass \<Rightarrow> string \<Rightarrow> val list
    \<Rightarrow> FirmwareConnection \<Rightarrow> (string \<times> err option) \<times> FirmwareConnection" where
  "FirmwareClass_call T f methodName args conn = ArduinoMethodCall T f methodName [VList args] conn"

text \<open>An index out of range is a run-time panic, not a value.\<close>

datatype 'a go_result = Panics | Returns 'a

definition CallAndReturnByte :: "transport \<Rightarrow> FirmwareClass \<Rightarrow> string \<Rightarrow> val list
    \<Rightarrow> FirmwareConnection \<Rightarrow> (char \<times> err option) go_result \<times> FirmwareConnection" where
  "CallAndReturnByte T f methodName args conn =
     (case ArduinoMethodCall T f methodName [VList args] conn of
        ((s, err), c) \<Rightarrow> (if 0 < length s then Returns (s ! 0, err) else Panics, c))"

text \<open>
  \<open>strconv.Atoi\<close> on a 64-bit \<open>int\<close>, by its general path: an optional sign, then
  decimal digits read left to right; a character that is no digit is a syntax error,
  a value beyond the range is a range error with the nearest bound as value.
\<close>

definition is_digit :: "char \<Rightarrow> bool" where
  "is_digit c = (48 \<le> (of_char c :: nat) \<and> (of_char c :: nat) \<le> 57)"

definition digit_val :: "char \<Rightarrow> nat" where
  "digit_val c = of_char c - 48"

fun ParseUint :: "string \<Rightarrow> nat \<Rightarrow> numerr + nat" where
  "ParseUint [] n = Inr n"
| "ParseUint (c # cs) n =
     (if \<not> is_digit c then Inl ErrSyntax
      else if n \<ge> (2 ^ 64 - 1) div 10 + 1 then Inl ErrRange
      else if n * 10 + digit_val c > 2 ^ 64 - 1 then Inl ErrRange
      else ParseUint cs (n * 10 + digit_val c))"

definition Atoi :: "string \<Rightarrow> int \<times> err option" where
  "Atoi s =
     (if s = [] then (0, Some (NumError ''Atoi'' s ErrSyntax))
      else
        (let neg = (hd s = CHR ''-'');
             r = (if hd s = CHR ''+'' \<or> hd s = CHR ''-'' then tl s else s)
         in case (if r = [] then Inl ErrSyntax else ParseUint r 0) of
              Inl ErrSyntax \<Rightarrow> (0, Some (NumError ''Atoi'' s ErrSyntax))
            | Inl ErrRange \<Rightarrow>
                (if neg then - (2 ^ 63) else 2 ^ 63 - 1, Some (NumError ''Atoi'' s ErrRange))
            | Inr un \<Rightarrow>
                (if \<not> neg \<and> un \<ge> 2 ^ 63 then (2 ^ 63 - 1, Some (NumError ''Atoi'' s ErrRange))
                 else if neg \<and> un > 2 ^ 63 then (- (2 ^ 63), Some (NumError ''Atoi'' s ErrRange))
                 else (if neg then - int un else int un, None))))"

definition CallAndReturnInt :: "transport \<Rightarrow> FirmwareClass \<Rightarrow> string \<Rightarrow> val list
    \<Rightarrow> FirmwareConnection \<Rightarrow> (int \<times> err option) \<times> FirmwareConnection" where
  "CallAndReturnInt T f methodName args conn =
     (case ArduinoMethodCall T f methodName [VList args] conn of
        ((s, Some e), c) \<Rightarrow> ((- 1, Some e), c)
      | ((s, None), c) \<Rightarrow> (Atoi s, c))"

definition CallAndReturnNothing :: "transport \<Rightarrow> FirmwareClass \<Rightarrow> string \<Rightarrow> val list
    \<Rightarrow> FirmwareConnection \<Rightarrow> err option \<times> FirmwareConnection" where
  "CallAndReturnNothing T f methodName args conn =
     (case ArduinoMethodCall T f methodName [VList args] conn of ((s, err), c) \<Rightarrow> (err, c))"

section \<open>The I2C master over the Wire namespace\<close>

definition NewWire :: FirmwareClass where
  "NewWire = \<lparr>Id_fc = 0, Namespace = ''Wire''\<rparr>"

text \<open>\<open>I2CAddress.Value\<close> on a pointer: nil gives the nil interface.\<close>

definition Value :: "int option \<Rightarrow> val" where
  "Value addr = (case addr of Some a \<Rightarrow> VInt a | None \<Rightarrow> VNil)"

record i2cbase =
  wire :: FirmwareClass
  Address :: "int option"
  busInitialized :: bool

definition newI2cBase :: "FirmwareClass \<Rightarrow> int option \<Rightarrow> i2cbase" where
  "newI2cBase w address = \<lparr>wire = w, Address = address, busInitialized = False\<rparr>"

definition NewI2cMaster :: "FirmwareClass \<Rightarrow> i2cbase" where
  "NewI2cMaster w = newI2cBase w None"

definition Begin :: "transport \<Rightarrow> FirmwareClass \<Rightarrow> int option \<Rightarrow> FirmwareConnection
    \<Rightarrow> err option \<times> FirmwareConnection" where
  "Begin T w address conn = CallAndReturnNothing T w ''begin'' [Value address] conn"

definition i2c_begin :: "transport \<Rightarrow> i2cbase \<Rightarrow> FirmwareConnection \<Rightarrow> err option \<times> FirmwareConnection" where
  "i2c_begin T b conn =
     (if \<not> busInitialized b then Begin T (wire b) (Address b) conn else (None, conn))"

definition BeginTransmission :: "transport \<Rightarrow> FirmwareClass \<Rightarrow> int \<Rightarrow> FirmwareConnection
    \<Rightarrow> err option \<times> FirmwareConnection" where
  "BeginTransmission T w address conn =
     (case FirmwareClass_call T w ''beginTransmission'' [Value (Some address)] conn of
        ((s, err), c) \<Rightarrow> (err, c))"

definition EndTransmission :: "transport \<Rightarrow> FirmwareClass \<Rightarrow> bool \<Rightarrow> FirmwareConnection
    \<Rightarrow> (int \<times> err option) \<times> FirmwareConnection" where
  "EndTransmission T w stop conn = CallAndReturnInt T w ''endTransmission'' [VBool stop] conn"

text \<open>
  \<open>wire.Write\<close> sends the bytes one call each and returns the index it reached:
  \<open>k\<close> is the index of the next byte, \<open>i\<close> the value of the result variable so far.
\<close>

fun wire_Write_loop :: "transport \<Rightarrow> FirmwareClass \<Rightarrow> string \<Rightarrow> int \<Rightarrow> int \<Rightarrow> FirmwareConnection
    \<Rightarrow> (int \<times> err option) \<times> FirmwareConnection" where
  "wire_Write_loop T w [] k i conn = ((i, None), conn)"
| "wire_Write_loop T w (v # rest) k i conn =
     (case CallAndReturnNothing T w ''write'' [VByte v] conn of
        (Some e, c) \<Rightarrow> ((k, Some e), c)
      | (None, c) \<Rightarrow> wire_Write_loop T w rest (k + 1) k c)"

definition wire_Write :: "transport \<Rightarrow> FirmwareClass \<Rightarrow> string \<Rightarrow> FirmwareConnection
    \<Rightarrow> (int \<times> err option) \<times> FirmwareConnection" where
  "wire_Write T w b conn = wire_Write_loop T w b 0 0 conn"

definition Send :: "transport \<Rightarrow> i2cbase \<Rightarrow> int \<Rightarrow> string \<Rightarrow> FirmwareConnection
    \<Rightarrow> err option \<times> FirmwareConnection" where
  "Send T m address data conn =
     (case i2c_begin T m conn of
        (Some e, c1) \<Rightarrow> (Some e, c1)
      | (None, c1) \<Rightarrow>
     (case BeginTransmission T (wire m) address c1 of
        (Some e, c2) \<Rightarrow> (None, c2)
      | (None, c2) \<Rightarrow>
     (case wire_Write T (wire m) data c2 of
        ((n, Some e), c3) \<Rightarrow> (Some e, c3)
      | ((n, None), c3) \<Rightarrow>
     (case EndTransmission T (wire m) True c3 of
        ((c, Some e), c4) \<Rightarrow> (Some e, c4)
      | ((c, None), c4) \<Rightarrow>
          (if c \<noteq> 0 then (Some (i2cCommunicationError c), c4) else (None, c4))))))"

section \<open>Transports for the scenarios\<close>

text \<open>
  A firmware that accepts every write and flush and answers every read the same way,
  and one that answers the first read with the line \<open>ok\<close> and later reads not at all.
\<close>

definition fake_firmware :: "scan_race \<Rightarrow> transport" where
  "fake_firmware answer =
     \<lparr>OpenPort_res = (\<lambda>h. None), Write_res = (\<lambda>h b. None), Flush_res = (\<lambda>h. None),
      PortFlush_res = (\<lambda>h. None), PortClose_res = (\<lambda>h. None), Scan_res = (\<lambda>h. answer)\<rparr>"

definition answers_once :: transport where
  "answers_once =
     \<lparr>OpenPort_res = (\<lambda>h. None), Write_res = (\<lambda>h b. None), Flush_res = (\<lambda>h. None),
      PortFlush_res = (\<lambda>h. None), PortClose_res = (\<lambda>h. None),
      Scan_res = (\<lambda>h. if Scan \<in> set h then TimerFired else ScanDone None ''ok'')\<rparr>"

text \<open>
  A buffered writer over a device that refuses every write. \<open>bufio.NewWriter\<close> gives a
  buffer of 4096 bytes, made anew by each \<open>Open\<close>. A write that fits the free space is
  copied and returns nil without touching the device; a write that does not fit, and a
  flush of a buffer that is not empty, reach the device, fail, and leave the writer in
  an error that every later write and flush returns. \<open>bufio_writer\<close> runs the events so
  far and gives the number of buffered bytes and whether the writer is in error.
\<close>

fun bufio_writer :: "event list \<Rightarrow> nat \<times> bool \<Rightarrow> nat \<times> bool" where
  "bufio_writer [] st = st"
| "bufio_writer (OpenPort # es) st = bufio_writer es (0, False)"
| "bufio_writer (RWWrite p # es) (n, failed) =
     bufio_writer es
       (if failed then (n, True)
        else if length p > 4096 - n then (if n = 0 then 0 else 4096, True)
        else (n + length p, False))"
| "bufio_writer (RWFlush # es) (n, failed) =
     bufio_writer es (if failed \<or> n = 0 then (n, failed) else (n, True))"
| "bufio_writer (e # es) st = bufio_writer es st"

definition refusing_device :: transport where
  "refusing_device =
     \<lparr>OpenPort_res = (\<lambda>h. None),
      Write_res = (\<lambda>h p. case bufio_writer h (0, False) of
                     (n, failed) \<Rightarrow>
                       if failed \<or> length p > 4096 - n then Some ''input/output error'' else None),
      Flush_res = (\<lambda>h. case bufio_writer h (0, False) of
                     (n, failed) \<Rightarrow>
                       if failed \<or> n \<noteq> 0 then Some ''input/output error'' else None),
      PortFlush_res = (\<lambda>h. None), PortClose_res = (\<lambda>h. None),
      Scan_res = (\<lambda>h. TimerFired)\<rparr>"

text \<open>The bytes handed to the buffered writer, in order, and the payload of each write.\<close>

fun written :: "event list \<Rightarrow> string" where
  "written [] = []"
| "written (RWWrite b # es) = b @ written es"
| "written (e # es) = written es"

fun writes_of :: "event list \<Rightarrow> string list" where
  "writes_of [] = []"
| "writes_of (RWWrite b # es) = b # writes_of es"
| "writes_of (e # es) = writes_of es"

text \<open>The values that have a wire encoding, and the bytes of one on the wire.\<close>

fun supported :: "val \<Rightarrow> bool" where
  "supported (VStr v) = True"
| "supported (VInt v) = True"
| "supported (VBool v) = True"
| "supported v = False"

definition frame :: "val \<Rightarrow> string" where
  "frame v = (case write_switch v of Inr s \<Rightarrow> s @ [NUL] | Inl e \<Rightarrow> [])"

fun is_list :: "val \<Rightarrow> bool" where
  "is_list (VList ls) = True"
| "is_list v = False"

text \<open>
  What one argument contributes to the flattened list, the error \<open>write\<close> builds for a
  value it cannot encode, and the connection of the scenarios: named \<open>ttyUSB0\<close>, no
  settle delay, a read timeout of 50 ms, opened on a firmware that accepts everything.
\<close>

definition expand :: "val \<Rightarrow> val list" where
  "expand arg = (case arg of VList ls \<Rightarrow> filter (\<lambda>el. el \<noteq> VNil) ls | VNil \<Rightarrow> [] | _ \<Rightarrow> [arg])"

definition unsupported_error :: "val \<Rightarrow> err" where
  "unsupported_error v = ErrorString (''Firmware Write: Unsupported type '' @ type_name v)"

definition scenario_conn :: FirmwareConnection where
  "scenario_conn =
     snd (Open (fake_firmware TimerFired)
            ((NewFirmwareConnection ''ttyUSB0'')\<lparr>SleepAfterConnect := 0, ReadTimeout := 50 * 1000000\<rparr>))"

section \<open>Facts about the flattening loop\<close>

lemma flatten_list_acc:
  "flatten_list ls (toprint, nel) =
     (toprint @ filter (\<lambda>el. el \<noteq> VNil) ls, nel + int (length (filter (\<lambda>el. el \<noteq> VNil) ls)))"
  by (induction ls arbitrary: toprint nel) auto

lemma flatten_args_acc:
  "flatten_args args (toprint, nel) =
     (toprint @ concat (map expand args), nel + int (length (concat (map expand args))))"
proof (induction args arbitrary: toprint nel)
  case Nil
  show ?case by simp
next
  case (Cons arg args)
  show ?case
    by (cases arg) (simp_all add: Cons.IH flatten_list_acc expand_def)
qed

text \<open>The counter \<open>nel\<close> is the length of \<open>toprint\<close> when the loop ends.\<close>

lemma flatten_args_start:
  "flatten_args args ([], 0) = (flatten args, int (length (flatten args)))"
  by (simp add: flatten_def flatten_args_acc)

lemma flatten_expand: "flatten args = concat (map expand args)"
  by (simp add: flatten_def flatten_args_acc)

lemma expand_no_list_nil:
  assumes "\<forall>l. a = VList l \<longrightarrow> (\<forall>e\<in>set l. \<not> is_list e)"
  shows "\<forall>e\<in>set (expand a). \<not> is_list e \<and> e \<noteq> VNil"
  using assms by (cases a) (auto simp: expand_def)

lemma flatten_flat:
  "\<forall>e\<in>set xs. \<not> is_list e \<and> e \<noteq> VNil \<Longrightarrow> flatten xs = xs"
proof (induction xs)
  case Nil
  show ?case by (simp add: flatten_expand)
next
  case (Cons x xs)
  then have "expand x = [x]"
    by (cases x) (simp_all add: expand_def)
  with Cons show ?case by (simp add: flatten_expand)
qed

section \<open>Facts about the events of a call\<close>

lemma emit_simps [simp]:
  "trace (emit e s) = trace s @ [e]"
  "port_open (emit e s) = port_open s"
  "Name (emit e s) = Name s"
  by (simp_all add: emit_def)

lemma scenario_conn_eq:
  "scenario_conn = \<lparr>Name = ''ttyUSB0'', SleepAfterConnect = 0, ReadTimeout = 50000000,
      port_open = True, trace = [OpenPort, PortFlush]\<rparr>"
  by (simp add: scenario_conn_def Open_def NewFirmwareConnection_def fake_firmware_def emit_def)

lemma writes_of_append: "writes_of (xs @ ys) = writes_of xs @ writes_of ys"
  by (induction xs rule: writes_of.induct) simp_all

lemma written_append: "written (xs @ ys) = written xs @ written ys"
  by (induction xs rule: written.induct) simp_all

lemma count_list_app: "count_list (xs @ ys) a = count_list xs a + count_list ys a"
  by (induction xs) simp_all

lemma count_PortFlush_writes: "count_list (map (\<lambda>v. RWWrite (f v)) vs) PortFlush = 0"
  by (induction vs) simp_all

lemma write_switch_unsupported: "\<not> supported v \<Longrightarrow> write_switch v = Inl (unsupported_error v)"
  by (cases v) (simp_all add: unsupported_error_def)

lemma write_val_ok:
  assumes "port_open c" and "supported v" and "Write_res T (trace c) (frame v) = None"
  shows "write_val T v c = (None, emit (RWWrite (frame v)) c)"
  using assms by (cases v) (simp_all add: write_val_def Write_def frame_def)

lemma write_each_ok:
  assumes "port_open c" and "\<forall>v\<in>set vs. supported v" and "\<And>h b. Write_res T h b = None"
  shows "write_each T vs c = (None, c\<lparr>trace := trace c @ map (\<lambda>v. RWWrite (frame v)) vs\<rparr>)"
  using assms(1,2)
proof (induction vs arbitrary: c)
  case Nil
  show ?case by simp
next
  case (Cons v vs)
  have "write_val T v c = (None, emit (RWWrite (frame v)) c)"
    using Cons.prems assms(3) by (simp add: write_val_ok)
  moreover have "write_each T vs (emit (RWWrite (frame v)) c)
      = (None, (emit (RWWrite (frame v)) c)\<lparr>trace := trace (emit (RWWrite (frame v)) c)
                  @ map (\<lambda>v. RWWrite (frame v)) vs\<rparr>)"
    using Cons.prems by (intro Cons.IH) simp_all
  ultimately show ?case by (simp add: emit_def)
qed

lemma write_each_stops:
  assumes "port_open c" and "\<And>h b. Write_res T h b = None"
    and "\<forall>v\<in>set pre. supported v" and "\<not> supported v"
  shows "fst (write_each T (pre @ v # post) c) = Some (unsupported_error v)"
  using assms(1,3)
proof (induction pre arbitrary: c)
  case Nil
  show ?case
    using assms(4) by (simp add: write_val_def write_switch_unsupported)
next
  case (Cons p pre)
  have "write_val T p c = (None, emit (RWWrite (frame p)) c)"
    using Cons.prems assms(2) by (simp add: write_val_ok)
  moreover have "fst (write_each T (pre @ v # post) (emit (RWWrite (frame p)) c))
      = Some (unsupported_error v)"
    using Cons.prems by (intro Cons.IH) simp_all
  ultimately show ?case by simp
qed

lemma first_unsupported:
  assumes "\<exists>v\<in>set vs. \<not> supported v"
  shows "vs = takeWhile supported vs @ hd (dropWhile supported vs) # tl (dropWhile supported vs)
    \<and> \<not> supported (hd (dropWhile supported vs))"
proof -
  have ne: "dropWhile supported vs \<noteq> []"
    using assms by (simp add: dropWhile_eq_Nil_conv)
  then have "\<not> supported (hd (dropWhile supported vs))"
    by (rule hd_dropWhile)
  moreover have "vs = takeWhile supported vs @ dropWhile supported vs" by simp
  ultimately show ?thesis using ne by simp
qed

lemma Write_writes: "\<exists>bs. trace (snd (Write T b c)) = trace c @ map RWWrite bs"
proof (cases "port_open c")
  case True
  then have "trace (snd (Write T b c)) = trace c @ map RWWrite [b]"
    by (simp add: Write_def)
  then show ?thesis by blast
next
  case False
  then have "trace (snd (Write T b c)) = trace c @ map RWWrite []"
    by (simp add: Write_def)
  then show ?thesis by blast
qed

lemma write_val_writes: "\<exists>bs. trace (snd (write_val T v c)) = trace c @ map RWWrite bs"
proof (cases "write_switch v")
  case (Inl e)
  then have "trace (snd (write_val T v c)) = trace c @ map RWWrite []"
    by (simp add: write_val_def)
  then show ?thesis by blast
next
  case (Inr s)
  then show ?thesis
    using Write_writes [of T "s @ [NUL]" c] by (simp add: write_val_def)
qed

lemma write_each_writes: "\<exists>bs. trace (snd (write_each T vs c)) = trace c @ map RWWrite bs"
proof (induction vs arbitrary: c)
  case Nil
  have "trace (snd (write_each T [] c)) = trace c @ map RWWrite []" by simp
  then show ?case by blast
next
  case (Cons v vs)
  obtain r c1 where w: "write_val T v c = (r, c1)" by (cases "write_val T v c")
  obtain bs where b: "trace c1 = trace c @ map RWWrite bs"
    using write_val_writes [of T v c] w by auto
  show ?case
  proof (cases r)
    case None
    obtain bs' where "trace (snd (write_each T vs c1)) = trace c1 @ map RWWrite bs'"
      using Cons.IH [of c1] by blast
    then have "trace (snd (write_each T (v # vs) c)) = trace c @ map RWWrite (bs @ bs')"
      using w None b by simp
    then show ?thesis by blast
  next
    case (Some e)
    then show ?thesis using w b by auto
  qed
qed

lemma write_each_unsupported:
  "\<exists>v\<in>set vs. \<not> supported v \<Longrightarrow> fst (write_each T vs c) \<noteq> None"
proof (induction vs arbitrary: c)
  case Nil
  then show ?case by simp
next
  case (Cons v vs)
  show ?case
  proof (cases "supported v")
    case True
    with Cons.prems have "\<exists>v\<in>set vs. \<not> supported v" by simp
    then show ?thesis
      using Cons.IH by (auto split: prod.splits option.splits)
  next
    case False
    then have "\<exists>e. write_switch v = Inl e"
      by (cases v) simp_all
    then show ?thesis
      by (auto simp: write_val_def)
  qed
qed

text \<open>With an unsupported value among the flattened arguments a call only ever writes.\<close>

lemma call_unsupported_writes_only:
  assumes "\<exists>v\<in>set (flatten args). \<not> supported v"
  shows "\<exists>bs. trace (snd (call T ns i args c)) = trace c @ map RWWrite bs"
proof -
  obtain r1 c1 where w1: "write_val T (VStr ns) c = (r1, c1)" by (cases "write_val T (VStr ns) c")
  obtain b1 where t1: "trace c1 = trace c @ map RWWrite b1"
    using write_val_writes [of T "VStr ns" c] w1 by auto
  obtain r2 c2 where w2: "write_val T (VInt i) c1 = (r2, c2)" by (cases "write_val T (VInt i) c1")
  obtain b2 where t2: "trace c2 = trace c1 @ map RWWrite b2"
    using write_val_writes [of T "VInt i" c1] w2 by auto
  let ?n = "VInt (int (length (flatten args)) - 1)"
  obtain r3 c3 where w3: "write_val T ?n c2 = (r3, c3)" by (cases "write_val T ?n c2")
  obtain b3 where t3: "trace c3 = trace c2 @ map RWWrite b3"
    using write_val_writes [of T ?n c2] w3 by auto
  obtain r4 c4 where w4: "write_each T (flatten args) c3 = (r4, c4)"
    by (cases "write_each T (flatten args) c3")
  obtain b4 where t4: "trace c4 = trace c3 @ map RWWrite b4"
    using write_each_writes [of T "flatten args" c3] w4 by auto
  have r4: "r4 \<noteq> None"
    using write_each_unsupported [OF assms, of T c3] w4 by simp
  have "trace (snd (call T ns i args c)) = trace c @ map RWWrite b1
      \<or> trace (snd (call T ns i args c)) = trace c @ map RWWrite (b1 @ b2)
      \<or> trace (snd (call T ns i args c)) = trace c @ map RWWrite (b1 @ b2 @ b3)
      \<or> trace (snd (call T ns i args c)) = trace c @ map RWWrite (b1 @ b2 @ b3 @ b4)"
    using w1 w2 w3 w4 r4 t1 t2 t3 t4
    by (auto simp: call_def flatten_args_start split: option.splits)
  then show ?thesis by blast
qed

lemma Flush_extends: "\<exists>r. trace (snd (Flush T c)) = trace c @ r"
  by (simp add: Flush_def)

lemma ReadLine_extends: "\<exists>r. trace (snd (ReadLine T c)) = trace c @ r"
  by (simp add: ReadLine_def Let_def)

lemma returnValue_extends: "\<exists>r. trace (snd (returnValue T c)) = trace c @ r"
  using ReadLine_extends [of T c]
  by (auto simp: returnValue_def split: prod.splits option.splits)

lemma call_after_count:
  "\<exists>r. trace (snd (case write_each T vs c3 of
                      (Some e, c4) \<Rightarrow> (([], Some e), c4)
                    | (None, c4) \<Rightarrow>
                        (case Flush T c4 of
                           (Some e, c5) \<Rightarrow> (([], Some e), c5)
                         | (None, c5) \<Rightarrow> returnValue T c5))) = trace c3 @ r"
proof -
  obtain r4 c4 where w4: "write_each T vs c3 = (r4, c4)" by (cases "write_each T vs c3")
  obtain bs where t4: "trace c4 = trace c3 @ map RWWrite bs"
    using write_each_writes [of T vs c3] w4 by auto
  obtain r5 c5 where w5: "Flush T c4 = (r5, c5)" by (cases "Flush T c4")
  obtain x where t5: "trace c5 = trace c4 @ x"
    using Flush_extends [of T c4] w5 by auto
  obtain y where t6: "trace (snd (returnValue T c5)) = trace c5 @ y"
    using returnValue_extends [of T c5] by blast
  show ?thesis
    using w4 w5 t4 t5 t6 by (auto split: option.splits)
qed

lemma call_writes_cases:
  "writes_of (drop (length (trace c)) (trace (snd (call T ns i args c)))) = []
   \<or> writes_of (drop (length (trace c)) (trace (snd (call T ns i args c)))) = [frame (VStr ns)]
   \<or> writes_of (drop (length (trace c)) (trace (snd (call T ns i args c)))) = [frame (VStr ns), frame (VInt i)]
   \<or> (\<exists>r. writes_of (drop (length (trace c)) (trace (snd (call T ns i args c))))
         = [frame (VStr ns), frame (VInt i), frame (VInt (int (length (flatten args)) - 1))] @ r)"
proof (cases "port_open c")
  case False
  then show ?thesis
    by (simp add: call_def write_val_def Write_def)
next
  case op: True
  let ?c1 = "emit (RWWrite (frame (VStr ns))) c"
  let ?c2 = "emit (RWWrite (frame (VInt i))) ?c1"
  let ?n = "VInt (int (length (flatten args)) - 1)"
  let ?c3 = "emit (RWWrite (frame ?n)) ?c2"
  have w1: "write_val T (VStr ns) c = (map_option Device (Write_res T (trace c) (frame (VStr ns))), ?c1)"
    using op by (simp add: write_val_def Write_def frame_def)
  have w2: "write_val T (VInt i) ?c1 = (map_option Device (Write_res T (trace ?c1) (frame (VInt i))), ?c2)"
    using op by (simp add: write_val_def Write_def frame_def)
  have w3: "write_val T ?n ?c2 = (map_option Device (Write_res T (trace ?c2) (frame ?n)), ?c3)"
    using op by (simp add: write_val_def Write_def frame_def)
  show ?thesis
  proof (cases "Write_res T (trace c) (frame (VStr ns))")
    case (Some e)
    then show ?thesis using w1 by (simp add: call_def)
  next
    case n1: None
    show ?thesis
    proof (cases "Write_res T (trace ?c1) (frame (VInt i))")
      case (Some e)
      then show ?thesis using w1 w2 n1 by (simp add: call_def)
    next
      case n2: None
      show ?thesis
      proof (cases "Write_res T (trace ?c2) (frame ?n)")
        case (Some e)
        then show ?thesis using w1 w2 w3 n1 n2 by (simp add: call_def flatten_args_start)
      next
        case n3: None
        obtain r where "trace (snd (case write_each T (flatten args) ?c3 of
                      (Some e, c4) \<Rightarrow> (([], Some e), c4)
                    | (None, c4) \<Rightarrow>
                        (case Flush T c4 of
                           (Some e, c5) \<Rightarrow> (([], Some e), c5)
                         | (None, c5) \<Rightarrow> returnValue T c5))) = trace ?c3 @ r"
          using call_after_count [of T "flatten args" ?c3] by blast
        then have "trace (snd (call T ns i args c)) = trace ?c3 @ r"
          using w1 w2 w3 n1 n2 n3 by (simp add: call_def flatten_args_start)
        then show ?thesis by (simp add: writes_of_append)
      qed
    qed
  qed
qed

lemma call_three_writes:
  assumes "port_open c" and ok: "\<And>h b. Write_res T h b = None"
  shows "\<exists>r. writes_of (drop (length (trace c)) (trace (snd (call T ns i args c))))
         = [frame (VStr ns), frame (VInt i), frame (VInt (int (length (flatten args)) - 1))] @ r"
proof -
  let ?c1 = "emit (RWWrite (frame (VStr ns))) c"
  let ?c2 = "emit (RWWrite (frame (VInt i))) ?c1"
  let ?n = "VInt (int (length (flatten args)) - 1)"
  let ?c3 = "emit (RWWrite (frame ?n)) ?c2"
  have w1: "write_val T (VStr ns) c = (None, ?c1)"
    using assms(1) ok by (simp add: write_val_ok)
  have w2: "write_val T (VInt i) ?c1 = (None, ?c2)"
    using assms(1) ok by (simp add: write_val_ok)
  have w3: "write_val T ?n ?c2 = (None, ?c3)"
    using assms(1) ok by (simp add: write_val_ok)
  obtain r where "trace (snd (case write_each T (flatten args) ?c3 of
                (Some e, c4) \<Rightarrow> (([], Some e), c4)
              | (None, c4) \<Rightarrow>
                  (case Flush T c4 of
                     (Some e, c5) \<Rightarrow> (([], Some e), c5)
                   | (None, c5) \<Rightarrow> returnValue T c5))) = trace ?c3 @ r"
    using call_after_count [of T "flatten args" ?c3] by blast
  then have "trace (snd (call T ns i args c)) = trace ?c3 @ r"
    using w1 w2 w3 by (simp add: call_def flatten_args_start)
  then show ?thesis by (simp add: writes_of_append)
qed

lemma call_reaches_read:
  assumes "port_open c" and "\<forall>v\<in>set (flatten args). supported v"
    and ok: "\<And>h b. Write_res T h b = None" and "\<And>h. Flush_res T h = None"
  shows "call T ns i args c =
     returnValue T (c\<lparr>trace := trace c @ map (\<lambda>v. RWWrite (frame v))
        ([VStr ns, VInt i, VInt (int (length (flatten args)) - 1)] @ flatten args) @ [RWFlush]\<rparr>)"
proof -
  let ?c1 = "emit (RWWrite (frame (VStr ns))) c"
  let ?c2 = "emit (RWWrite (frame (VInt i))) ?c1"
  let ?n = "VInt (int (length (flatten args)) - 1)"
  let ?c3 = "emit (RWWrite (frame ?n)) ?c2"
  have w1: "write_val T (VStr ns) c = (None, ?c1)"
    using assms(1) ok by (simp add: write_val_ok)
  have w2: "write_val T (VInt i) ?c1 = (None, ?c2)"
    using assms(1) ok by (simp add: write_val_ok)
  have w3: "write_val T ?n ?c2 = (None, ?c3)"
    using assms(1) ok by (simp add: write_val_ok)
  have w4: "write_each T (flatten args) ?c3
      = (None, ?c3\<lparr>trace := trace ?c3 @ map (\<lambda>v. RWWrite (frame v)) (flatten args)\<rparr>)"
    using assms(1,2) ok by (intro write_each_ok) simp_all
  show ?thesis
    using w1 w2 w3 w4 assms(1,4)
    by (simp add: call_def flatten_args_start Flush_def emit_def)
qed

lemma returnValue_error_empty:
  "snd (fst (returnValue T c)) \<noteq> None \<Longrightarrow> fst (fst (returnValue T c)) = []"
  by (auto simp: returnValue_def split: prod.splits option.splits)

lemma call_error_empty:
  "snd (fst (call T ns i args c)) \<noteq> None \<Longrightarrow> fst (fst (call T ns i args c)) = []"
proof -
  assume a: "snd (fst (call T ns i args c)) \<noteq> None"
  obtain r1 c1 where w1: "write_val T (VStr ns) c = (r1, c1)" by (cases "write_val T (VStr ns) c")
  obtain r2 c2 where w2: "write_val T (VInt i) c1 = (r2, c2)" by (cases "write_val T (VInt i) c1")
  let ?n = "VInt (int (length (flatten args)) - 1)"
  obtain r3 c3 where w3: "write_val T ?n c2 = (r3, c3)" by (cases "write_val T ?n c2")
  obtain r4 c4 where w4: "write_each T (flatten args) c3 = (r4, c4)"
    by (cases "write_each T (flatten args) c3")
  obtain r5 c5 where w5: "Flush T c4 = (r5, c5)" by (cases "Flush T c4")
  show ?thesis
    using a w1 w2 w3 w4 w5 returnValue_error_empty [of T c5]
    by (cases r1; cases r2; cases r3; cases r4; cases r5)
       (simp_all add: call_def flatten_args_start)
qed

lemma prependName_eq: "prependName args name = VStr name # args"
  by (cases args) (simp_all add: prependName_def Let_def)

section \<open>Decimal text\<close>

lemma Itoa_small: "Itoa 0 = ''0''" "Itoa 1 = ''1''" "Itoa 2 = ''2''" "Itoa 42 = ''42''"
  by (simp_all add: Itoa_def digits.simps digit_char_def)

lemma digit_char_value:
  assumes "d < 10"
  shows "is_digit (digit_char d) \<and> digit_val (digit_char d) = d
     \<and> digit_char d \<noteq> CHR ''-'' \<and> digit_char d \<noteq> CHR ''+'' \<and> digit_char d \<noteq> NUL"
proof -
  have "d = 0 \<or> d = 1 \<or> d = 2 \<or> d = 3 \<or> d = 4 \<or> d = 5 \<or> d = 6 \<or> d = 7 \<or> d = 8 \<or> d = 9"
    using assms by arith
  then show ?thesis
    by (elim disjE) (simp_all add: digit_char_def is_digit_def digit_val_def NUL_def)
qed

lemma digits_nonempty: "digits n \<noteq> []"
  by (subst digits.simps) simp

lemma digits_chars: "c \<in> set (digits n) \<Longrightarrow> is_digit c \<and> c \<noteq> CHR ''-'' \<and> c \<noteq> CHR ''+'' \<and> c \<noteq> NUL"
proof (induction n rule: digits.induct)
  case (1 n)
  show ?case
  proof (cases "n < 10")
    case True
    then have "digits n = [digit_char n]" by (subst digits.simps) simp
    then show ?thesis using "1.prems" True digit_char_value [of n] by simp
  next
    case False
    then have d: "digits n = digits (n div 10) @ [digit_char (n mod 10)]"
      by (subst digits.simps) simp
    have "n mod 10 < 10" by simp
    then show ?thesis
      using "1.prems" "1.IH" False d digit_char_value [of "n mod 10"] by auto
  qed
qed

lemma ParseUint_append:
  "ParseUint (xs @ ys) a = (case ParseUint xs a of Inl e \<Rightarrow> Inl e | Inr m \<Rightarrow> ParseUint ys m)"
  by (induction xs arbitrary: a) simp_all

lemma ParseUint_digit:
  assumes "d < 10" and "a * 10 + d \<le> 2 ^ 64 - 1"
  shows "ParseUint [digit_char d] a = Inr (a * 10 + d)"
proof -
  have "a < (2 ^ 64 - 1) div 10 + 1"
    using assms by simp
  then show ?thesis
    using assms digit_char_value [of d] by simp
qed

lemma ParseUint_digits: "n \<le> 2 ^ 64 - 1 \<Longrightarrow> ParseUint (digits n) 0 = Inr n"
proof (induction n rule: digits.induct)
  case (1 n)
  show ?case
  proof (cases "n < 10")
    case True
    then have "digits n = [digit_char n]" by (subst digits.simps) simp
    then show ?thesis using True "1.prems" ParseUint_digit [of n 0] by simp
  next
    case False
    then have d: "digits n = digits (n div 10) @ [digit_char (n mod 10)]"
      by (subst digits.simps) simp
    have "n div 10 \<le> 2 ^ 64 - 1" using "1.prems" by simp
    then have ih: "ParseUint (digits (n div 10)) 0 = Inr (n div 10)"
      using "1.IH" False by simp
    have "ParseUint [digit_char (n mod 10)] (n div 10) = Inr (n div 10 * 10 + n mod 10)"
      using "1.prems" by (intro ParseUint_digit) simp_all
    then show ?thesis
      by (simp add: d ParseUint_append ih)
  qed
qed

lemma hd_digits: "hd (digits n) \<noteq> CHR ''-'' \<and> hd (digits n) \<noteq> CHR ''+''"
  using digits_chars [of "hd (digits n)" n] digits_nonempty [of n] by simp

lemma Atoi_Itoa:
  assumes "- (2 ^ 63) \<le> i" and "i < 2 ^ 63"
  shows "Atoi (Itoa i) = (i, None)"
proof (cases "i < 0")
  case True
  have "nat (- i) \<le> 2 ^ 64 - 1" using assms by simp
  then have p: "ParseUint (digits (nat (- i))) 0 = Inr (nat (- i))"
    by (rule ParseUint_digits)
  have "\<not> nat (- i) > 2 ^ 63" using assms by simp
  then show ?thesis
    using True p digits_nonempty [of "nat (- i)"] by (simp add: Atoi_def Itoa_def)
next
  case False
  have "nat i \<le> 2 ^ 64 - 1" using assms by simp
  then have p: "ParseUint (digits (nat i)) 0 = Inr (nat i)"
    by (rule ParseUint_digits)
  have "\<not> nat i \<ge> 2 ^ 63" using assms False by simp
  then show ?thesis
    using False p digits_nonempty [of "nat i"] hd_digits [of "nat i"]
    by (simp add: Atoi_def Itoa_def)
qed

section \<open>The claims\<close>

text \<open>
  C1. On an open connection whose transport accepts every write and flush and then
  yields the reply line \<open>ok\<close>, the call with namespace \<open>A\<close>, id 0 and arguments
  \<open>dw\<close>, \<open>13\<close>, \<open>1\<close> hands to the transport, in this order, the six NUL-terminated
  fields \<open>A\<close>, \<open>0\<close>, \<open>2\<close>, \<open>dw\<close>, \<open>13\<close>, \<open>1\<close>, flushes, reads once, and returns
  \<open>ok\<close> with no error.
\<close>

theorem scenario_A:
  assumes "port_open c"
    and "\<And>h b. Write_res T h b = None"
    and "\<And>h. Flush_res T h = None"
    and "\<And>h. Scan_res T h = ScanDone None ''ok''"
  shows "call T ''A'' 0 [VStr ''dw'', VStr ''13'', VStr ''1''] c =
           ((''ok'', None),
            c\<lparr>trace := trace c @
               [RWWrite (''A'' @ [NUL]), RWWrite (''0'' @ [NUL]), RWWrite (''2'' @ [NUL]),
                RWWrite (''dw'' @ [NUL]), RWWrite (''13'' @ [NUL]), RWWrite (''1'' @ [NUL]),
                RWFlush, Scan]\<rparr>)
       \<and> written (drop (length (trace c))
                   (trace (snd (call T ''A'' 0 [VStr ''dw'', VStr ''13'', VStr ''1''] c))))
           = ''A'' @ [NUL] @ ''0'' @ [NUL] @ ''2'' @ [NUL] @ ''dw'' @ [NUL] @ ''13'' @ [NUL] @ ''1'' @ [NUL]"
proof -
  have run: "call T ''A'' 0 [VStr ''dw'', VStr ''13'', VStr ''1''] c =
           ((''ok'', None),
            c\<lparr>trace := trace c @
               [RWWrite (''A'' @ [NUL]), RWWrite (''0'' @ [NUL]), RWWrite (''2'' @ [NUL]),
                RWWrite (''dw'' @ [NUL]), RWWrite (''13'' @ [NUL]), RWWrite (''1'' @ [NUL]),
                RWFlush, Scan]\<rparr>)"
    using assms
    by (simp add: call_def write_val_def Write_def Flush_def returnValue_def ReadLine_def
        emit_def Itoa_small)
  show ?thesis
    by (simp add: run)
qed

theorem scenario_A_witness:
  "port_open scenario_conn
   \<and> fst (call (fake_firmware (ScanDone None ''ok'')) ''A'' 0 [VStr ''dw'', VStr ''13'', VStr ''1'']
          scenario_conn) = (''ok'', None)
   \<and> written (drop (length (trace scenario_conn))
        (trace (snd (call (fake_firmware (ScanDone None ''ok'')) ''A'' 0
                       [VStr ''dw'', VStr ''13'', VStr ''1''] scenario_conn))))
       = ''A'' @ [NUL] @ ''0'' @ [NUL] @ ''2'' @ [NUL] @ ''dw'' @ [NUL] @ ''13'' @ [NUL] @ ''1'' @ [NUL]"
  using scenario_A [of scenario_conn "fake_firmware (ScanDone None ''ok'')"]
  by (simp add: scenario_conn_eq fake_firmware_def)

text \<open>
  C2. On an open connection, when the timer wins the race against the scan,
  \<open>ReadLine\<close> returns no bytes and a \<open>SerialTimeoutError\<close> whose message is the port
  name followed by \<open>ReadLine timeout\<close>, and it flushes the port exactly once after the
  scan. A call whose writes and flush are accepted and whose flattened arguments all
  have an encoding, on a transport that never yields a line, returns the empty string
  with that error and flushes the port exactly once.
\<close>

theorem read_timeout:
  assumes "port_open c"
  shows "(Scan_res T (trace c) = TimerFired \<longrightarrow>
           ReadLine T c = (([], Some (SerialTimeoutError (Name c @ '' ReadLine timeout''))),
                           c\<lparr>trace := trace c @ [Scan, PortFlush]\<rparr>))
       \<and> ((\<forall>h b. Write_res T h b = None) \<and> (\<forall>h. Flush_res T h = None)
            \<and> (\<forall>h. Scan_res T h = TimerFired) \<and> (\<forall>v\<in>set (flatten args). supported v) \<longrightarrow>
           fst (call T ns i args c) = ([], Some (SerialTimeoutError (Name c @ '' ReadLine timeout'')))
           \<and> count_list (trace (snd (call T ns i args c))) PortFlush = count_list (trace c) PortFlush + 1)"
proof (intro conjI impI)
  assume "Scan_res T (trace c) = TimerFired"
  then show "ReadLine T c = (([], Some (SerialTimeoutError (Name c @ '' ReadLine timeout''))),
                           c\<lparr>trace := trace c @ [Scan, PortFlush]\<rparr>)"
    using assms by (simp add: ReadLine_def emit_def)
next
  assume a: "(\<forall>h b. Write_res T h b = None) \<and> (\<forall>h. Flush_res T h = None)
            \<and> (\<forall>h. Scan_res T h = TimerFired) \<and> (\<forall>v\<in>set (flatten args). supported v)"
  have eq: "call T ns i args c =
     returnValue T (c\<lparr>trace := trace c @ map (\<lambda>v. RWWrite (frame v))
        ([VStr ns, VInt i, VInt (int (length (flatten args)) - 1)] @ flatten args) @ [RWFlush]\<rparr>)"
    using assms a by (intro call_reaches_read) simp_all
  show "fst (call T ns i args c) = ([], Some (SerialTimeoutError (Name c @ '' ReadLine timeout'')))"
    using assms a by (simp add: eq returnValue_def ReadLine_def)
  show "count_list (trace (snd (call T ns i args c))) PortFlush = count_list (trace c) PortFlush + 1"
    using assms a
    by (simp add: eq returnValue_def ReadLine_def emit_def count_list_app count_PortFlush_writes)
qed

theorem read_timeout_witness:
  "port_open scenario_conn
   \<and> ReadLine (fake_firmware TimerFired) scenario_conn
       = (([], Some (SerialTimeoutError ''ttyUSB0 ReadLine timeout'')),
          scenario_conn\<lparr>trace := [OpenPort, PortFlush, Scan, PortFlush]\<rparr>)
   \<and> fst (call (fake_firmware TimerFired) ''A'' 0 [VStr ''dw'', VStr ''13'', VStr ''1''] scenario_conn)
       = ([], Some (SerialTimeoutError ''ttyUSB0 ReadLine timeout''))
   \<and> count_list (trace (snd (call (fake_firmware TimerFired) ''A'' 0
                                 [VStr ''dw'', VStr ''13'', VStr ''1''] scenario_conn))) PortFlush = 2"
  using read_timeout [of scenario_conn "fake_firmware TimerFired"
      "[VStr ''dw'', VStr ''13'', VStr ''1'']" "''A''" 0]
  by (simp add: scenario_conn_eq fake_firmware_def flatten_def)

text \<open>
  C3 (as amended). A connection whose port field is nil, as a new connection's is
  before \<open>Open\<close>, refuses \<open>Write\<close>, \<open>Flush\<close>, \<open>ReadLine\<close> and \<open>FlushPort\<close> with the
  port-closed error and is left unchanged.
\<close>

theorem closed_before_Open:
  "\<not> port_open (NewFirmwareConnection n)
   \<and> (\<not> port_open c \<longrightarrow>
        Write T b c = (Some portClosed, c) \<and> Flush T c = (Some portClosed, c)
        \<and> ReadLine T c = (([], Some portClosed), c) \<and> FlushPort T c = (Some portClosed, c))"
  by (simp add: NewFirmwareConnection_def Write_def Flush_def ReadLine_def FlushPort_def)

theorem closed_before_Open_witness:
  "\<not> port_open (NewFirmwareConnection ''ttyUSB0'')
   \<and> Write (fake_firmware TimerFired) ''x'' (NewFirmwareConnection ''ttyUSB0'')
       = (Some portClosed, NewFirmwareConnection ''ttyUSB0'')
   \<and> Flush (fake_firmware TimerFired) (NewFirmwareConnection ''ttyUSB0'')
       = (Some portClosed, NewFirmwareConnection ''ttyUSB0'')
   \<and> ReadLine (fake_firmware TimerFired) (NewFirmwareConnection ''ttyUSB0'')
       = (([], Some portClosed), NewFirmwareConnection ''ttyUSB0'')
   \<and> FlushPort (fake_firmware TimerFired) (NewFirmwareConnection ''ttyUSB0'')
       = (Some portClosed, NewFirmwareConnection ''ttyUSB0'')"
  using closed_before_Open [of "''ttyUSB0''" "NewFirmwareConnection ''ttyUSB0''"
      "fake_firmware TimerFired" "''x''"]
  by simp

text \<open>
  After \<open>Open\<close> and then \<open>Close\<close> the port field is still set, and a \<open>Write\<close> is handed
  to the buffered writer: it returns what the writer returns, here no error.
\<close>

theorem Write_after_Close_counterexample:
  "fst (Write (fake_firmware TimerFired) ''x'' (snd (Close (fake_firmware TimerFired) scenario_conn)))
     = None"
  by (simp add: Write_def Close_def scenario_conn_eq fake_firmware_def)

text \<open>
  C4 (as amended). For every argument list in which no list-valued argument contains a
  list, flattening is idempotent.
\<close>

theorem flatten_idempotent_one_level:
  assumes "\<forall>a\<in>set x. \<forall>l. a = VList l \<longrightarrow> (\<forall>e\<in>set l. \<not> is_list e)"
  shows "flatten x = flatten (flatten x)"
proof -
  have "\<not> is_list e \<and> e \<noteq> VNil" if "e \<in> set (flatten x)" for e
  proof -
    from that obtain a where a: "a \<in> set x" and e: "e \<in> set (expand a)"
      by (auto simp: flatten_expand)
    have "\<forall>l. a = VList l \<longrightarrow> (\<forall>e\<in>set l. \<not> is_list e)"
      using assms a by blast
    then show ?thesis
      using expand_no_list_nil [of a] e by blast
  qed
  then have "flatten (flatten x) = flatten x"
    by (intro flatten_flat) blast
  then show ?thesis by simp
qed

theorem flatten_idempotent_one_level_witness:
  "flatten [VStr ''dw'', VList [VStr ''13'', VNil, VInt 1], VNil]
     = flatten (flatten [VStr ''dw'', VList [VStr ''13'', VNil, VInt 1], VNil])
   \<and> flatten [VStr ''dw'', VList [VStr ''13'', VNil, VInt 1], VNil] = [VStr ''dw'', VStr ''13'', VInt 1]"
proof -
  have h: "\<forall>a\<in>set [VStr ''dw'', VList [VStr ''13'', VNil, VInt 1], VNil].
       \<forall>l. a = VList l \<longrightarrow> (\<forall>e\<in>set l. \<not> is_list e)"
    by simp
  have v: "flatten [VStr ''dw'', VList [VStr ''13'', VNil, VInt 1], VNil] = [VStr ''dw'', VStr ''13'', VInt 1]"
    by (simp add: flatten_def)
  show ?thesis
    using flatten_idempotent_one_level [OF h] v by simp
qed

text \<open>
  The loop expands one level only: a list inside a list-valued argument is appended as
  it is, and a second flattening expands it.
\<close>

theorem flatten_twice_counterexample:
  "flatten [VList [VList [VInt 1]]] \<noteq> flatten (flatten [VList [VList [VInt 1]]])
   \<and> flatten [VList [VList [VInt 1]]] = [VList [VInt 1]]
   \<and> flatten (flatten [VList [VList [VInt 1]]]) = [VInt 1]"
  by (simp add: flatten_def)

text \<open>
  C5. In every call, on every transport, the third field handed to the writer, when
  there is one, is the decimal text of the number of flattened arguments minus one,
  followed by NUL; it is \<open>0\<close> when exactly one argument remains after flattening; and
  there is a third field whenever the connection is open and the transport accepts the
  writes.
\<close>

theorem count_field:
  "(2 < length (writes_of (drop (length (trace c)) (trace (snd (call T ns i args c))))) \<longrightarrow>
      writes_of (drop (length (trace c)) (trace (snd (call T ns i args c)))) ! 2
        = Itoa (int (length (flatten args)) - 1) @ [NUL]
      \<and> (length (flatten args) = 1 \<longrightarrow>
           writes_of (drop (length (trace c)) (trace (snd (call T ns i args c)))) ! 2 = ''0'' @ [NUL]))
   \<and> (port_open c \<and> (\<forall>h b. Write_res T h b = None) \<longrightarrow>
        2 < length (writes_of (drop (length (trace c)) (trace (snd (call T ns i args c))))))"
proof -
  have third: "writes_of (drop (length (trace c)) (trace (snd (call T ns i args c)))) ! 2
        = Itoa (int (length (flatten args)) - 1) @ [NUL]"
    if "2 < length (writes_of (drop (length (trace c)) (trace (snd (call T ns i args c)))))"
    using call_writes_cases [of c T ns i args] that
    by (auto simp: frame_def)
  have emitted: "2 < length (writes_of (drop (length (trace c)) (trace (snd (call T ns i args c)))))"
    if "port_open c" and "\<forall>h b. Write_res T h b = None"
    using call_three_writes [of c T ns i args] that by auto
  show ?thesis
    using third emitted by (auto simp: Itoa_small)
qed

theorem count_field_witness:
  "2 < length (writes_of (drop (length (trace scenario_conn))
         (trace (snd (call (fake_firmware TimerFired) ''A'' 0 [VList [VNil, VStr ''m'']] scenario_conn)))))
   \<and> writes_of (drop (length (trace scenario_conn))
         (trace (snd (call (fake_firmware TimerFired) ''A'' 0 [VList [VNil, VStr ''m'']] scenario_conn)))) ! 2
        = ''0'' @ [NUL]"
proof -
  have a: "port_open scenario_conn \<and> (\<forall>h b. Write_res (fake_firmware TimerFired) h b = None)"
    by (simp add: scenario_conn_eq fake_firmware_def)
  have b: "length (flatten [VList [VNil, VStr ''m'']]) = 1"
    by (simp add: flatten_def)
  show ?thesis
    using count_field [of scenario_conn "fake_firmware TimerFired" "''A''" 0 "[VList [VNil, VStr ''m'']]"]
      a b
    by blast
qed

text \<open>
  C6 (as amended). When the flattened argument list contains a value that is not a
  string, int or bool: on an open connection whose buffered writer accepts the writes
  of the call, the call returns the unsupported-type error that names the type of the
  first such value; and on every connection and transport the call ends before it
  reaches \<open>Flush\<close>: among the events of the call there is no flush.
\<close>

theorem unsupported_argument:
  assumes "\<exists>v\<in>set (flatten args). \<not> supported v"
  shows "(port_open c \<and> (\<forall>h b. Write_res T h b = None) \<longrightarrow>
            fst (call T ns i args c)
              = ([], Some (ErrorString (''Firmware Write: Unsupported type ''
                     @ type_name (hd (dropWhile supported (flatten args)))))))
       \<and> RWFlush \<notin> set (drop (length (trace c)) (trace (snd (call T ns i args c))))"
proof -
  let ?vs = "flatten args"
  let ?v = "hd (dropWhile supported ?vs)"
  have no_flush: "RWFlush \<notin> set (drop (length (trace c)) (trace (snd (call T ns i args c))))"
    using call_unsupported_writes_only [OF assms, of T ns i c] by auto
  have "fst (call T ns i args c) = ([], Some (unsupported_error ?v))"
    if op: "port_open c" and ok: "\<forall>h b. Write_res T h b = None"
  proof -
    let ?n = "VInt (int (length ?vs) - 1)"
    let ?c1 = "emit (RWWrite (frame (VStr ns))) c"
    let ?c2 = "emit (RWWrite (frame (VInt i))) ?c1"
    let ?c3 = "emit (RWWrite (frame ?n)) ?c2"
    have w1: "write_val T (VStr ns) c = (None, ?c1)"
      using op ok by (simp add: write_val_ok)
    have w2: "write_val T (VInt i) ?c1 = (None, ?c2)"
      using op ok by (simp add: write_val_ok)
    have w3: "write_val T ?n ?c2 = (None, ?c3)"
      using op ok by (simp add: write_val_ok)
    have split: "?vs = takeWhile supported ?vs @ ?v # tl (dropWhile supported ?vs)"
      and bad: "\<not> supported ?v"
      using first_unsupported [OF assms] by simp_all
    have "fst (write_each T (takeWhile supported ?vs @ ?v # tl (dropWhile supported ?vs)) ?c3)
        = Some (unsupported_error ?v)"
    proof (rule write_each_stops)
      show "port_open ?c3" using op by simp
      show "\<And>h b. Write_res T h b = None" using ok by simp
      show "\<forall>v\<in>set (takeWhile supported ?vs). supported v"
        by (auto dest: set_takeWhileD)
      show "\<not> supported ?v" by (rule bad)
    qed
    then have w4: "fst (write_each T ?vs ?c3) = Some (unsupported_error ?v)"
      using split by simp
    show ?thesis
      using w1 w2 w3 w4
      by (auto simp: call_def flatten_args_start split: prod.splits option.splits)
  qed
  then show ?thesis
    using no_flush by (simp add: unsupported_error_def)
qed

theorem unsupported_argument_witness:
  "fst (call (fake_firmware TimerFired) ''A'' 0
            [VStr ''s'', VList [VStr ''4'', VByte (CHR ''x''), VOther ''float64'']] scenario_conn)
       = ([], Some (ErrorString ''Firmware Write: Unsupported type uint8''))
   \<and> RWFlush \<notin> set (drop (length (trace scenario_conn))
         (trace (snd (call (fake_firmware TimerFired) ''A'' 0
            [VStr ''s'', VList [VStr ''4'', VByte (CHR ''x''), VOther ''float64'']] scenario_conn))))"
proof -
  have f: "flatten [VStr ''s'', VList [VStr ''4'', VByte (CHR ''x''), VOther ''float64'']]
      = [VStr ''s'', VStr ''4'', VByte (CHR ''x''), VOther ''float64'']"
    by (simp add: flatten_def)
  have h: "\<exists>v\<in>set (flatten [VStr ''s'', VList [VStr ''4'', VByte (CHR ''x''), VOther ''float64'']]).
      \<not> supported v"
    by (simp add: f)
  have a: "port_open scenario_conn \<and> (\<forall>h b. Write_res (fake_firmware TimerFired) h b = None)"
    by (simp add: scenario_conn_eq fake_firmware_def)
  show ?thesis
    using unsupported_argument [OF h, of scenario_conn "fake_firmware TimerFired" "''A''" 0] a h
    by (simp add: f)
qed

text \<open>
  On a connection that was never opened the first write is refused and the call returns
  the port-closed error. On an open connection whose device refused the flush of an
  earlier call, the buffered writer is in error and refuses the first write of the next
  call, which returns the device's error. Neither is the unsupported-type error.
\<close>

theorem unsupported_not_reached_counterexample:
  "fst (call (fake_firmware TimerFired) ''A'' 0 [VOther ''float64''] (NewFirmwareConnection ''ttyUSB0''))
     = ([], Some portClosed)
   \<and> portClosed \<noteq> ErrorString ''Firmware Write: Unsupported type float64''
   \<and> fst (call refusing_device ''A'' 0 [VStr ''m''] scenario_conn)
     = ([], Some (Device ''input/output error''))
   \<and> RWFlush \<in> set (trace (snd (call refusing_device ''A'' 0 [VStr ''m''] scenario_conn)))
   \<and> fst (call refusing_device ''A'' 0 [VOther ''float64'']
            (snd (call refusing_device ''A'' 0 [VStr ''m''] scenario_conn)))
     = ([], Some (Device ''input/output error''))"
proof -
  have closed: "fst (call (fake_firmware TimerFired) ''A'' 0 [VOther ''float64'']
                  (NewFirmwareConnection ''ttyUSB0'')) = ([], Some portClosed)"
    by (simp add: call_def write_val_def Write_def NewFirmwareConnection_def)
  have first: "call refusing_device ''A'' 0 [VStr ''m''] scenario_conn
      = (([], Some (Device ''input/output error'')),
         scenario_conn\<lparr>trace := [OpenPort, PortFlush, RWWrite (''A'' @ [NUL]), RWWrite (''0'' @ [NUL]),
            RWWrite (''0'' @ [NUL]), RWWrite (''m'' @ [NUL]), RWFlush]\<rparr>)"
    by (simp add: call_def write_val_def Write_def Flush_def scenario_conn_eq refusing_device_def
        emit_def Itoa_small)
  have second: "fst (call refusing_device ''A'' 0 [VOther ''float64'']
            (scenario_conn\<lparr>trace := [OpenPort, PortFlush, RWWrite (''A'' @ [NUL]), RWWrite (''0'' @ [NUL]),
               RWWrite (''0'' @ [NUL]), RWWrite (''m'' @ [NUL]), RWFlush]\<rparr>))
     = ([], Some (Device ''input/output error''))"
    by (simp add: call_def write_val_def Write_def scenario_conn_eq refusing_device_def)
  show ?thesis
    using second by (simp add: closed first portClosed_def)
qed

text \<open>
  C7. The encoder hands to \<open>conn.Write\<close> the token \<open>True\<close> for true and \<open>False\<close> for
  false, the decimal text of an integer and the bytes of a string, each followed by one
  NUL byte, and on an open connection exactly that payload is the one write recorded.
  The decimal text contains no NUL, and \<open>Atoi\<close> reads it back to the same integer over
  the whole 64-bit range.
\<close>

theorem scalar_encoding:
  "write_val T (VBool True) c = Write T (''True'' @ [NUL]) c
   \<and> write_val T (VBool False) c = Write T (''False'' @ [NUL]) c
   \<and> write_val T (VInt i) c = Write T (Itoa i @ [NUL]) c
   \<and> write_val T (VStr s) c = Write T (s @ [NUL]) c
   \<and> (port_open c \<longrightarrow> trace (snd (Write T b c)) = trace c @ [RWWrite b])
   \<and> NUL \<notin> set (Itoa i)
   \<and> (- (2 ^ 63) \<le> i \<and> i < 2 ^ 63 \<longrightarrow> Atoi (Itoa i) = (i, None))"
proof -
  have "NUL \<notin> set (digits n)" for n
    using digits_chars [of NUL n] by blast
  then have "NUL \<notin> set (Itoa i)"
    by (simp add: Itoa_def NUL_def)
  then show ?thesis
    by (simp add: write_val_def Write_def Atoi_Itoa)
qed

theorem scalar_encoding_witness:
  "port_open scenario_conn
   \<and> trace (snd (write_val (fake_firmware TimerFired) (VBool True) scenario_conn))
       = trace scenario_conn @ [RWWrite (''True'' @ [NUL])]
   \<and> trace (snd (write_val (fake_firmware TimerFired) (VBool False) scenario_conn))
       = trace scenario_conn @ [RWWrite (''False'' @ [NUL])]
   \<and> trace (snd (write_val (fake_firmware TimerFired) (VInt 42) scenario_conn))
       = trace scenario_conn @ [RWWrite (''42'' @ [NUL])]
   \<and> trace (snd (write_val (fake_firmware TimerFired) (VStr ''hello'') scenario_conn))
       = trace scenario_conn @ [RWWrite (''hello'' @ [NUL])]
   \<and> Atoi (Itoa 42) = (42, None)"
proof -
  have a: "port_open scenario_conn"
    by (simp add: scenario_conn_eq)
  have r: "- (2 ^ 63) \<le> (42::int) \<and> (42::int) < 2 ^ 63"
    by simp
  show ?thesis
    using scalar_encoding [of "fake_firmware TimerFired" scenario_conn 42 "''hello''" "''True'' @ [NUL]"]
      scalar_encoding [of "fake_firmware TimerFired" scenario_conn 42 "''hello''" "''False'' @ [NUL]"]
      scalar_encoding [of "fake_firmware TimerFired" scenario_conn 42 "''hello''" "''42'' @ [NUL]"]
      scalar_encoding [of "fake_firmware TimerFired" scenario_conn 42 "''hello''" "''hello'' @ [NUL]"]
      a r
    by (simp add: Itoa_small)
qed

text \<open>
  C9. \<open>CallAndReturnByte\<close> reads \<open>s[0]\<close> before it looks at the error. Whenever the
  underlying call returns an error its reply is empty and the read panics; the read is
  in range exactly when the call succeeded with a reply that is not empty.
\<close>

theorem CallAndReturnByte_index:
  "(snd (fst (ArduinoMethodCall T f m [VList args] c)) \<noteq> None \<longrightarrow>
      fst (fst (ArduinoMethodCall T f m [VList args] c)) = []
      \<and> fst (CallAndReturnByte T f m args c) = Panics)
   \<and> (fst (CallAndReturnByte T f m args c) \<noteq> Panics \<longleftrightarrow>
      snd (fst (ArduinoMethodCall T f m [VList args] c)) = None
      \<and> fst (fst (ArduinoMethodCall T f m [VList args] c)) \<noteq> [])"
proof -
  obtain s er c1 where r: "ArduinoMethodCall T f m [VList args] c = ((s, er), c1)"
    by (cases "ArduinoMethodCall T f m [VList args] c") auto
  have "er \<noteq> None \<Longrightarrow> s = []"
    using call_error_empty [of T "Namespace f" "Id_fc f" "prependName [VList args] m" c] r
    by (simp add: ArduinoMethodCall_def)
  then show ?thesis
    using r by (cases er) (auto simp: CallAndReturnByte_def)
qed

theorem CallAndReturnByte_index_witness:
  "snd (fst (ArduinoMethodCall (fake_firmware TimerFired) NewWire ''read'' [VList []] scenario_conn))
     = Some (SerialTimeoutError ''ttyUSB0 ReadLine timeout'')
   \<and> fst (CallAndReturnByte (fake_firmware TimerFired) NewWire ''read'' [] scenario_conn) = Panics
   \<and> fst (CallAndReturnByte (fake_firmware (ScanDone None ''7'')) NewWire ''read'' [] scenario_conn)
       = Returns (CHR ''7'', None)"
proof -
  have t: "fst (ArduinoMethodCall (fake_firmware TimerFired) NewWire ''read'' [VList []] scenario_conn)
      = ([], Some (SerialTimeoutError ''ttyUSB0 ReadLine timeout''))"
    by (simp add: ArduinoMethodCall_def prependName_eq NewWire_def call_def write_val_def Write_def
        Flush_def returnValue_def ReadLine_def scenario_conn_eq fake_firmware_def emit_def Itoa_small)
  have k: "fst (CallAndReturnByte (fake_firmware (ScanDone None ''7'')) NewWire ''read'' [] scenario_conn)
       = Returns (CHR ''7'', None)"
    by (simp add: CallAndReturnByte_def ArduinoMethodCall_def prependName_eq NewWire_def call_def
        write_val_def Write_def Flush_def returnValue_def ReadLine_def scenario_conn_eq
        fake_firmware_def emit_def Itoa_small)
  show ?thesis
    using CallAndReturnByte_index [of "fake_firmware TimerFired" NewWire "''read''" "[]" scenario_conn]
      t k
    by simp
qed

text \<open>
  C10. When the bus was joined without error and \<open>BeginTransmission\<close> then returns an
  error, \<open>Send\<close> returns nil.
\<close>

theorem Send_swallows_BeginTransmission_error:
  assumes "fst (i2c_begin T m c) = None"
    and "fst (BeginTransmission T (wire m) address (snd (i2c_begin T m c))) \<noteq> None"
  shows "fst (Send T m address data c) = None"
proof -
  obtain c1 where b: "i2c_begin T m c = (None, c1)"
    using assms(1) by (cases "i2c_begin T m c") simp
  obtain e c2 where t: "BeginTransmission T (wire m) address c1 = (Some e, c2)"
    using assms(2) b by (cases "BeginTransmission T (wire m) address c1") auto
  show ?thesis
    by (simp add: Send_def b t)
qed

theorem Send_swallows_BeginTransmission_error_witness:
  "fst (i2c_begin answers_once (NewI2cMaster NewWire) scenario_conn) = None
   \<and> fst (BeginTransmission answers_once (wire (NewI2cMaster NewWire)) 8
          (snd (i2c_begin answers_once (NewI2cMaster NewWire) scenario_conn)))
       = Some (SerialTimeoutError ''ttyUSB0 ReadLine timeout'')
   \<and> fst (Send answers_once (NewI2cMaster NewWire) 8 ''hi'' scenario_conn) = None"
  using Send_swallows_BeginTransmission_error [of answers_once "NewI2cMaster NewWire"
      scenario_conn 8 "''hi''"]
  by (simp add: i2c_begin_def Begin_def BeginTransmission_def FirmwareClass_call_def
      CallAndReturnNothing_def ArduinoMethodCall_def prependName_eq NewI2cMaster_def newI2cBase_def
      NewWire_def Value_def call_def write_val_def Write_def Flush_def returnValue_def ReadLine_def
      scenario_conn_eq answers_once_def emit_def Itoa_small)

end
